theory Spec2Isabelle
  imports Main "HOL-Library.Multiset"
begin

section \<open>JavaScript strings\<close>

text \<open>
  A JavaScript string is a sequence of UTF-16 code units; a code unit is modelled by its
  number. The currency marker of the price strings, U+09F3, is one code unit.
\<close>

type_synonym jsstring = "nat list"

text \<open>An ASCII literal as a sequence of code units.\<close>

definition str :: "string \<Rightarrow> jsstring" where
  "str s = map of_char s"

text \<open>
  The code units removed by \<^verbatim>\<open>String.prototype.trim\<close>: the WhiteSpace and LineTerminator
  code points of ECMAScript (TAB, LF, VT, FF, CR, SPACE, NBSP, U+1680, U+2000..U+200A,
  U+2028, U+2029, U+202F, U+205F, U+3000, U+FEFF).
\<close>

definition isWhiteSpace :: "nat \<Rightarrow> bool" where
  "isWhiteSpace c =
     (c = 9 \<or> c = 10 \<or> c = 11 \<or> c = 12 \<or> c = 13 \<or> c = 32 \<or> c = 160 \<or> c = 5760
      \<or> (8192 \<le> c \<and> c \<le> 8202) \<or> c = 8232 \<or> c = 8233 \<or> c = 8239 \<or> c = 8287
      \<or> c = 12288 \<or> c = 65279)"

definition trim :: "jsstring \<Rightarrow> jsstring" where
  "trim s = rev (dropWhile isWhiteSpace (rev (dropWhile isWhiteSpace s)))"

text \<open>
  \<^verbatim>\<open>String.prototype.toLowerCase\<close> is a function of the JavaScript engine, the Unicode
  case mapping: it maps letters outside ASCII too and need not keep the length of the
  string. Every function below that calls it takes it as its first argument \<open>lower\<close>, of
  type \<open>caseMapping\<close>, and every property is stated for an arbitrary \<open>lower\<close>: it holds for
  the mapping the engine implements, whatever that mapping does to a string.
\<close>

type_synonym caseMapping = "jsstring \<Rightarrow> jsstring"

text \<open>\<^verbatim>\<open>s.startsWith(q)\<close>\<close>

fun startsWith :: "jsstring \<Rightarrow> jsstring \<Rightarrow> bool" where
  "startsWith s [] = True"
| "startsWith [] (q # qs) = False"
| "startsWith (c # cs) (q # qs) = (c = q \<and> startsWith cs qs)"

text \<open>\<^verbatim>\<open>s.includes(q)\<close> on strings: \<open>q\<close> occurs in \<open>s\<close> at some position.\<close>

fun includes_str :: "jsstring \<Rightarrow> jsstring \<Rightarrow> bool" where
  "includes_str [] q = (q = [])"
| "includes_str (c # cs) q = (startsWith (c # cs) q \<or> includes_str cs q)"

text \<open>
  \<^verbatim>\<open>s.split(sep)\<close> for a separator of one code unit: the segments between the occurrences
  of the separator, empty segments included; \<open>acc\<close> holds the current segment reversed.
\<close>

fun split_acc :: "nat \<Rightarrow> jsstring \<Rightarrow> jsstring \<Rightarrow> jsstring list" where
  "split_acc sep acc [] = [rev acc]"
| "split_acc sep acc (c # cs) =
     (if c = sep then rev acc # split_acc sep [] cs else split_acc sep (c # acc) cs)"

definition split_str :: "jsstring \<Rightarrow> nat \<Rightarrow> jsstring list" where
  "split_str s sep = split_acc sep [] s"

text \<open>A string is truthy when it is not empty.\<close>

definition truthy :: "jsstring \<Rightarrow> bool" where
  "truthy s = (s \<noteq> [])"


section \<open>Data model\<close>

text \<open>
  \<^verbatim>\<open>interface Product\<close> of the search page and \<^verbatim>\<open>interface Component\<close> of the component
  page, which has the same fields and the optional \<^verbatim>\<open>specs\<close>.
\<close>

record Product =
  name :: jsstring
  price :: jsstring
  imageSrc :: jsstring
  availability :: jsstring
  source :: jsstring
  url :: jsstring

record Component = Product +
  specs :: "(jsstring \<times> jsstring) list option"

text \<open>
  The component page tests \<^verbatim>\<open>exactMatches.includes(component)\<close>, which compares objects by
  identity. An array of components is therefore a list of references into a store of
  objects: two references are the same object exactly when they are equal.
\<close>

type_synonym ref = nat
type_synonym heap = "ref \<Rightarrow> Component"


section \<open>Ranking: \<^verbatim>\<open>prioritizeExactMatches\<close> and \<^verbatim>\<open>applyFilters\<close>\<close>

text \<open>The four arrays and the set of sources that \<^verbatim>\<open>prioritizeExactMatches\<close> fills.\<close>

record matchGroups =
  exactMatches :: "ref list"
  startsWithMatches :: "ref list"
  containsMatches :: "ref list"
  otherMatches :: "ref list"
  sourcesWithExactMatches :: "jsstring set"

definition emptyGroups :: matchGroups where
  "emptyGroups = \<lparr>exactMatches = [], startsWithMatches = [], containsMatches = [],
     otherMatches = [], sourcesWithExactMatches = {}\<rparr>"

text \<open>The body of the first \<^verbatim>\<open>forEach\<close>.\<close>

definition firstPass ::
  "caseMapping \<Rightarrow> heap \<Rightarrow> jsstring \<Rightarrow> matchGroups \<Rightarrow> ref \<Rightarrow> matchGroups" where
  "firstPass lower h normalizedQuery g component =
     (let normalizedName = lower (name (h component)) in
      if normalizedName = normalizedQuery
      then g\<lparr>exactMatches := exactMatches g @ [component],
             sourcesWithExactMatches :=
               insert (source (h component)) (sourcesWithExactMatches g)\<rparr>
      else g)"

text \<open>The body of the second \<^verbatim>\<open>forEach\<close>.\<close>

definition secondPass ::
  "caseMapping \<Rightarrow> heap \<Rightarrow> jsstring \<Rightarrow> matchGroups \<Rightarrow> ref \<Rightarrow> matchGroups" where
  "secondPass lower h normalizedQuery g component =
     (if component \<in> set (exactMatches g) then g
      else
        let normalizedName = lower (name (h component)) in
        if normalizedName = normalizedQuery
           \<and> source (h component) \<notin> sourcesWithExactMatches g
        then g\<lparr>exactMatches := exactMatches g @ [component],
               sourcesWithExactMatches :=
                 insert (source (h component)) (sourcesWithExactMatches g)\<rparr>
        else if startsWith normalizedName normalizedQuery
        then g\<lparr>startsWithMatches := startsWithMatches g @ [component]\<rparr>
        else if includes_str normalizedName normalizedQuery
        then g\<lparr>containsMatches := containsMatches g @ [component]\<rparr>
        else g\<lparr>otherMatches := otherMatches g @ [component]\<rparr>)"

text \<open>The state of the groups after both passes over \<^verbatim>\<open>components\<close>.\<close>

definition classify :: "caseMapping \<Rightarrow> heap \<Rightarrow> ref list \<Rightarrow> jsstring \<Rightarrow> matchGroups" where
  "classify lower h components query =
     (let normalizedQuery = trim (lower query) in
      foldl (secondPass lower h normalizedQuery)
        (foldl (firstPass lower h normalizedQuery) emptyGroups components) components)"

definition prioritizeExactMatches ::
  "caseMapping \<Rightarrow> heap \<Rightarrow> ref list \<Rightarrow> jsstring \<Rightarrow> ref list" where
  "prioritizeExactMatches lower h components query =
     (let g = classify lower h components query in
      exactMatches g @ startsWithMatches g @ containsMatches g @ otherMatches g)"

text \<open>
  The last step of \<^verbatim>\<open>applyFilters\<close>: the result is reordered only when the trimmed search
  query is not empty. This is the operation the specification calls \<^verbatim>\<open>rank\<close>.
\<close>

definition rank :: "caseMapping \<Rightarrow> heap \<Rightarrow> ref list \<Rightarrow> jsstring \<Rightarrow> ref list" where
  "rank lower h result searchQuery =
     (if truthy (trim searchQuery) then prioritizeExactMatches lower h result searchQuery
      else result)"

text \<open>
  \<^verbatim>\<open>applyFilters\<close>, with the page state it reads as arguments; the value is the list given
  to \<^verbatim>\<open>setFilteredComponents\<close>. A filter is applied when its selection is neither null nor
  the empty string.
\<close>

definition applyFilters ::
  "caseMapping \<Rightarrow> heap \<Rightarrow> jsstring option \<Rightarrow> jsstring option \<Rightarrow> jsstring \<Rightarrow> ref list
     \<Rightarrow> ref list" where
  "applyFilters lower h selectedSource selectedAvailability searchQuery componentsToFilter =
     (let result = componentsToFilter;
          result = (case selectedSource of
                      None \<Rightarrow> result
                    | Some s \<Rightarrow>
                        if truthy s then filter (\<lambda>c. source (h c) = s) result else result);
          result = (case selectedAvailability of
                      None \<Rightarrow> result
                    | Some a \<Rightarrow>
                        if truthy a then filter (\<lambda>c. availability (h c) = a) result
                        else result)
      in rank lower h result searchQuery)"


section \<open>Grouped display of the component page\<close>

text \<open>
  The three sections of the grouped display, "Exact Matches", "Similar Matches" and "Other
  Related Results": each is the filtered components that pass one test. A section whose
  list is empty is not rendered. The query is lower-cased and not trimmed here.
\<close>

record sections =
  exactSection :: "ref list"
  similarSection :: "ref list"
  otherSection :: "ref list"

definition groupedSections :: "caseMapping \<Rightarrow> heap \<Rightarrow> ref list \<Rightarrow> jsstring \<Rightarrow> sections" where
  "groupedSections lower h filteredComponents searchQuery =
     \<lparr>exactSection =
        filter (\<lambda>c. lower (name (h c)) = lower searchQuery) filteredComponents,
      similarSection =
        filter (\<lambda>c. startsWith (lower (name (h c))) (lower searchQuery)
                    \<and> lower (name (h c)) \<noteq> lower searchQuery)
          filteredComponents,
      otherSection =
        filter (\<lambda>c. \<not> startsWith (lower (name (h c))) (lower searchQuery)
                    \<and> lower (name (h c)) \<noteq> lower searchQuery)
          filteredComponents\<rparr>"

text \<open>
  The expression \<^verbatim>\<open>searchQuery ? ... : ...\<close> of the page: the three sections when the
  search query is not empty, and no section (\<open>None\<close>, the page shows the components in one
  grid in their order) when it is empty. The specification calls this \<^verbatim>\<open>categorize\<close>.
  The page evaluates the expression on a list that is not empty; for an empty list it
  shows a message in its place.
\<close>

definition categorize ::
  "caseMapping \<Rightarrow> heap \<Rightarrow> ref list \<Rightarrow> jsstring \<Rightarrow> sections option" where
  "categorize lower h filteredComponents searchQuery =
     (if truthy searchQuery
      then Some (groupedSections lower h filteredComponents searchQuery)
      else None)"


section \<open>Components as the server sends them\<close>

text \<open>
  The components are parsed from the response of the server, and nothing checks them
  against \<^verbatim>\<open>interface Component\<close>: a component may come without a name, or with a name
  that is not a string. Then \<^verbatim>\<open>component.name.toLowerCase()\<close> raises a TypeError. A
  received component has a name when it is a string; its source is only stored and
  compared, which never raises.
\<close>

datatype jsError = TypeError

record JsonComponent =
  jsonName :: "jsstring option"
  jsonSource :: jsstring

type_synonym jsonHeap = "ref \<Rightarrow> JsonComponent"

text \<open>
  A received component read as a \<^verbatim>\<open>Component\<close>, with the fields the ranking reads. The
  functions below read the name this gives only of a component that has one.
\<close>

definition asComponent :: "JsonComponent \<Rightarrow> Component" where
  "asComponent jc =
     \<lparr>name = (case jsonName jc of Some n \<Rightarrow> n | None \<Rightarrow> []), price = [], imageSrc = [],
      availability = [], source = jsonSource jc, url = [], specs = None\<rparr>"

definition typedStore :: "jsonHeap \<Rightarrow> heap" where
  "typedStore j r = asComponent (j r)"

text \<open>\<^verbatim>\<open>forEach\<close> with a body that may raise: the first error ends the loop.\<close>

fun forEachE :: "('s \<Rightarrow> 'a \<Rightarrow> jsError + 's) \<Rightarrow> 's \<Rightarrow> 'a list \<Rightarrow> jsError + 's" where
  "forEachE f s [] = Inr s"
| "forEachE f s (x # xs) = (case f s x of Inl e \<Rightarrow> Inl e | Inr s' \<Rightarrow> forEachE f s' xs)"

text \<open>
  The bodies of the two loops on received components: the first reads the name of every
  component, the second of every component that is not in \<^verbatim>\<open>exactMatches\<close>.
\<close>

definition firstPassJson ::
  "caseMapping \<Rightarrow> jsonHeap \<Rightarrow> jsstring \<Rightarrow> matchGroups \<Rightarrow> ref \<Rightarrow> jsError + matchGroups" where
  "firstPassJson lower j normalizedQuery g component =
     (case jsonName (j component) of
        None \<Rightarrow> Inl TypeError
      | Some n \<Rightarrow> Inr (firstPass lower (typedStore j) normalizedQuery g component))"

definition secondPassJson ::
  "caseMapping \<Rightarrow> jsonHeap \<Rightarrow> jsstring \<Rightarrow> matchGroups \<Rightarrow> ref \<Rightarrow> jsError + matchGroups" where
  "secondPassJson lower j normalizedQuery g component =
     (if component \<in> set (exactMatches g) then Inr g
      else
        case jsonName (j component) of
          None \<Rightarrow> Inl TypeError
        | Some n \<Rightarrow> Inr (secondPass lower (typedStore j) normalizedQuery g component))"

definition prioritizeExactMatchesJson ::
  "caseMapping \<Rightarrow> jsonHeap \<Rightarrow> ref list \<Rightarrow> jsstring \<Rightarrow> jsError + ref list" where
  "prioritizeExactMatchesJson lower j components query =
     (let normalizedQuery = trim (lower query) in
      case forEachE (firstPassJson lower j normalizedQuery) emptyGroups components of
        Inl e \<Rightarrow> Inl e
      | Inr g1 \<Rightarrow>
          (case forEachE (secondPassJson lower j normalizedQuery) g1 components of
             Inl e \<Rightarrow> Inl e
           | Inr g \<Rightarrow>
               Inr (exactMatches g @ startsWithMatches g @ containsMatches g
                    @ otherMatches g)))"

definition rankJson ::
  "caseMapping \<Rightarrow> jsonHeap \<Rightarrow> ref list \<Rightarrow> jsstring \<Rightarrow> jsError + ref list" where
  "rankJson lower j result searchQuery =
     (if truthy (trim searchQuery) then prioritizeExactMatchesJson lower j result searchQuery
      else Inr result)"

text \<open>
  A test of the grouped display on a received component: \<^verbatim>\<open>c.name.toLowerCase()\<close> raises
  when the component has no name, and the test \<open>P\<close> is made on the lower-cased name
  otherwise.
\<close>

definition testName ::
  "caseMapping \<Rightarrow> jsonHeap \<Rightarrow> (jsstring \<Rightarrow> bool) \<Rightarrow> ref \<Rightarrow> jsError + bool" where
  "testName lower j P c =
     (case jsonName (j c) of None \<Rightarrow> Inl TypeError | Some n \<Rightarrow> Inr (P (lower n)))"

text \<open>\<^verbatim>\<open>some\<close>, which stops at the first element that passes, and \<^verbatim>\<open>filter\<close>.\<close>

fun someE :: "('a \<Rightarrow> jsError + bool) \<Rightarrow> 'a list \<Rightarrow> jsError + bool" where
  "someE p [] = Inr False"
| "someE p (x # xs) =
     (case p x of Inl e \<Rightarrow> Inl e | Inr b \<Rightarrow> if b then Inr True else someE p xs)"

fun filterE :: "('a \<Rightarrow> jsError + bool) \<Rightarrow> 'a list \<Rightarrow> jsError + 'a list" where
  "filterE p [] = Inr []"
| "filterE p (x # xs) =
     (case p x of
        Inl e \<Rightarrow> Inl e
      | Inr b \<Rightarrow>
          (case filterE p xs of
             Inl e \<Rightarrow> Inl e
           | Inr ys \<Rightarrow> Inr (if b then x # ys else ys)))"

text \<open>A section: \<^verbatim>\<open>xs.some(p) && ... xs.filter(p) ...\<close>.\<close>

definition sectionE :: "('a \<Rightarrow> jsError + bool) \<Rightarrow> 'a list \<Rightarrow> jsError + 'a list" where
  "sectionE p xs =
     (case someE p xs of
        Inl e \<Rightarrow> Inl e
      | Inr b \<Rightarrow> if b then filterE p xs else Inr [])"

definition categorizeJson ::
  "caseMapping \<Rightarrow> jsonHeap \<Rightarrow> ref list \<Rightarrow> jsstring \<Rightarrow> jsError + sections option" where
  "categorizeJson lower j filteredComponents searchQuery =
     (if truthy searchQuery
      then
        case sectionE (testName lower j (\<lambda>n. n = lower searchQuery)) filteredComponents of
          Inl e \<Rightarrow> Inl e
        | Inr ex \<Rightarrow>
            (case sectionE
                    (testName lower j
                       (\<lambda>n. startsWith n (lower searchQuery) \<and> n \<noteq> lower searchQuery))
                    filteredComponents of
               Inl e \<Rightarrow> Inl e
             | Inr si \<Rightarrow>
                 (case sectionE
                         (testName lower j
                            (\<lambda>n. \<not> startsWith n (lower searchQuery) \<and> n \<noteq> lower searchQuery))
                         filteredComponents of
                    Inl e \<Rightarrow> Inl e
                  | Inr ot \<Rightarrow>
                      Inr (Some \<lparr>exactSection = ex, similarSection = si,
                                 otherSection = ot\<rparr>)))
      else Inr None)"


section \<open>Price display\<close>

text \<open>The currency marker U+09F3.\<close>

definition taka :: nat where
  "taka = 2547"

text \<open>
  What \<^verbatim>\<open>renderPrice\<close> shows: two paragraphs, the current price and the struck-through
  one, or one paragraph with the price string as it is.
\<close>

datatype priceView = DualPrice jsstring jsstring | RegularPrice jsstring

definition renderPrice :: "jsstring \<Rightarrow> priceView" where
  "renderPrice p =
     (if includes_str p [taka] \<and> length (split_str p taka) > 2
      then
        let prices = filter (\<lambda>s. truthy (trim s)) (split_str p taka) in
        if length prices \<ge> 2
        then DualPrice (taka # trim (prices ! 0)) (taka # trim (prices ! 1))
        else RegularPrice p
      else RegularPrice p)"


section \<open>Compare list of the search page\<close>

text \<open>\<^verbatim>\<open>addToCompare\<close>: the new value of the \<^verbatim>\<open>compareList\<close> state.\<close>

definition addToCompare :: "Product list \<Rightarrow> Product \<Rightarrow> Product list" where
  "addToCompare compareList product =
     (if \<not> list_ex (\<lambda>item. name item = name product \<and> source item = source product)
              compareList
      then compareList @ [product]
      else compareList)"

definition compareKey :: "Product \<Rightarrow> jsstring \<times> jsstring" where
  "compareKey item = (name item, source item)"


section \<open>Notions used to state the properties\<close>

text \<open>
  The tier of a component: the number of the first test of the \<^verbatim>\<open>if\<close> chain of
  \<^verbatim>\<open>prioritizeExactMatches\<close> that its lower-cased name passes against the normalized
  query (1 equal, 2 starts with, 3 contains, 4 none of them).
\<close>

definition tier :: "caseMapping \<Rightarrow> heap \<Rightarrow> jsstring \<Rightarrow> ref \<Rightarrow> nat" where
  "tier lower h normalizedQuery c =
     (let normalizedName = lower (name (h c)) in
      if normalizedName = normalizedQuery then 1
      else if startsWith normalizedName normalizedQuery then 2
      else if includes_str normalizedName normalizedQuery then 3
      else 4)"

text \<open>
  The normalization as the specification words it, for the query and for the names alike:
  trimming leading and trailing whitespace and lower-casing.
\<close>

definition spec_normalize :: "caseMapping \<Rightarrow> jsstring \<Rightarrow> jsstring" where
  "spec_normalize lower s = trim (lower s)"

text \<open>
  The ranking as the specification words it, to compare the code with. The tiers of the
  items in input order: an item is in tier 1 (exact-priority) when its normalized name
  equals the normalized query and no earlier item of the same source is in tier 1; every
  other item is in tier 2 when its normalized name starts with the normalized query, else
  in tier 3 when it contains it, else in tier 4. \<open>seen\<close> holds the sources of the items
  already in tier 1.
\<close>

fun spec_tiers ::
  "caseMapping \<Rightarrow> heap \<Rightarrow> jsstring \<Rightarrow> jsstring set \<Rightarrow> ref list \<Rightarrow> nat list" where
  "spec_tiers lower h nq seen [] = []"
| "spec_tiers lower h nq seen (c # cs) =
     (if spec_normalize lower (name (h c)) = nq \<and> source (h c) \<notin> seen
      then 1 # spec_tiers lower h nq (insert (source (h c)) seen) cs
      else if startsWith (spec_normalize lower (name (h c))) nq
      then 2 # spec_tiers lower h nq seen cs
      else if includes_str (spec_normalize lower (name (h c))) nq
      then 3 # spec_tiers lower h nq seen cs
      else 4 # spec_tiers lower h nq seen cs)"

text \<open>
  The output of the specification: the items unchanged for an empty or whitespace-only
  query, and otherwise tier 1, then tier 2, tier 3 and tier 4, each in input order.
\<close>

definition spec_rank :: "caseMapping \<Rightarrow> heap \<Rightarrow> ref list \<Rightarrow> jsstring \<Rightarrow> ref list" where
  "spec_rank lower h items query =
     (if trim query = [] then items
      else
        let tagged = zip items (spec_tiers lower h (spec_normalize lower query) {} items) in
        map fst (filter (\<lambda>p. snd p = 1) tagged) @ map fst (filter (\<lambda>p. snd p = 2) tagged)
        @ map fst (filter (\<lambda>p. snd p = 3) tagged) @ map fst (filter (\<lambda>p. snd p = 4) tagged))"


section \<open>Example data\<close>

text \<open>
  The case mapping on the examples, whose strings are ASCII: on such a string
  \<^verbatim>\<open>toLowerCase\<close> maps the letters A to Z and leaves every other code unit.
\<close>

definition lowerUnit :: "nat \<Rightarrow> nat" where
  "lowerUnit c = (if 65 \<le> c \<and> c \<le> 90 then c + 32 else c)"

definition asciiLower :: caseMapping where
  "asciiLower s = map lowerUnit s"

definition exampleComponent :: "string \<Rightarrow> string \<Rightarrow> Component" where
  "exampleComponent n s = \<lparr>name = str n, price = [], imageSrc = [], availability = [],
     source = str s, url = [], specs = None\<rparr>"

definition exampleProduct :: "string \<Rightarrow> string \<Rightarrow> Product" where
  "exampleProduct n s = \<lparr>name = str n, price = [], imageSrc = [], availability = [],
     source = str s, url = []\<rparr>"

text \<open>The three components of the scenario of the specification.\<close>

definition catalogue :: heap where
  "catalogue r =
     (if r = 0 then exampleComponent ''RTX 4060'' ''Startech''
      else if r = 1 then exampleComponent ''RTX 4060 Ti'' ''Techland''
      else exampleComponent ''ASUS RTX 4060'' ''PC House'')"

text \<open>Distinct objects with the same name and the same source.\<close>

definition twins :: heap where
  "twins r = exampleComponent ''RTX 4060'' ''Startech''"

text \<open>Two exact matches of one source, and between them a name that starts with the query.\<close>

definition trio :: heap where
  "trio r =
     (if r = 1 then exampleComponent ''RTX 4060 Ti'' ''Techland''
      else exampleComponent ''RTX 4060'' ''Startech'')"


text \<open>A component whose name starts with a space.\<close>

definition padded :: heap where
  "padded r = exampleComponent '' RTX 4060'' ''Startech''"

text \<open>Received components: without a name, and with an empty name and an empty source.\<close>

definition nameless :: jsonHeap where
  "nameless r = \<lparr>jsonName = None, jsonSource = str ''Startech''\<rparr>"

definition blank :: jsonHeap where
  "blank r = \<lparr>jsonName = Some [], jsonSource = []\<rparr>"

text \<open>The price string of the comment in \<^verbatim>\<open>renderPrice\<close>: two amounts, two markers.\<close>

definition twoPrices :: jsstring where
  "twoPrices = taka # str '' 12,500 '' @ taka # str '' 13,000''"


section \<open>Strings: auxiliary facts\<close>

lemmas string_defs = str_def trim_def asciiLower_def lowerUnit_def isWhiteSpace_def
  truthy_def

lemmas ranking_defs = classify_def firstPass_def secondPass_def emptyGroups_def
  prioritizeExactMatches_def rank_def tier_def exampleComponent_def

lemma dropWhile_all: "(\<forall>x \<in> set (dropWhile P s). P x) = (\<forall>x \<in> set s. P x)"
  by (induction s) auto

lemma trim_Nil_iff: "(trim s = []) = (\<forall>c \<in> set s. isWhiteSpace c)"
  by (simp add: trim_def dropWhile_all)

lemma length_split_acc: "length (split_acc sep acc s) = Suc (count_list s sep)"
  by (induction s arbitrary: acc) simp_all

lemma length_split_str: "length (split_str s sep) = Suc (count_list s sep)"
  by (simp add: split_str_def length_split_acc)

lemma includes_str_unit: "includes_str s [x] = (x \<in> set s)"
  by (induction s) auto

lemma count_list_pos: "0 < count_list s x \<Longrightarrow> x \<in> set s"
  by (metis count_list_0_iff less_numeral_extra(3))

lemma startsWith_refl: "startsWith s s"
  by (induction s) simp_all


section \<open>The two passes of \<^verbatim>\<open>prioritizeExactMatches\<close>\<close>

text \<open>The first pass appends every component whose lower-cased name is the query.\<close>

lemma firstPass_foldl:
  "exactMatches (foldl (firstPass lower h nq) g cs) =
     exactMatches g @ filter (\<lambda>c. lower (name (h c)) = nq) cs
   \<and> startsWithMatches (foldl (firstPass lower h nq) g cs) = startsWithMatches g
   \<and> containsMatches (foldl (firstPass lower h nq) g cs) = containsMatches g
   \<and> otherMatches (foldl (firstPass lower h nq) g cs) = otherMatches g"
  by (induction cs arbitrary: g) (simp_all add: firstPass_def)

text \<open>
  Once every component with a matching name is in \<^verbatim>\<open>exactMatches\<close>, the second pass never
  adds to it: its branch on the sources is not reached.
\<close>

lemma secondPass_foldl:
  assumes "\<forall>c \<in> set cs. (lower (name (h c)) = nq) = (c \<in> set (exactMatches g))"
  shows "exactMatches (foldl (secondPass lower h nq) g cs) = exactMatches g
   \<and> startsWithMatches (foldl (secondPass lower h nq) g cs) =
       startsWithMatches g @ filter (\<lambda>c. tier lower h nq c = 2) cs
   \<and> containsMatches (foldl (secondPass lower h nq) g cs) =
       containsMatches g @ filter (\<lambda>c. tier lower h nq c = 3) cs
   \<and> otherMatches (foldl (secondPass lower h nq) g cs) =
       otherMatches g @ filter (\<lambda>c. tier lower h nq c = 4) cs"
  using assms
proof (induction cs arbitrary: g)
  case Nil
  show ?case by simp
next
  case (Cons c cs)
  have ex: "exactMatches (secondPass lower h nq g c) = exactMatches g"
    using Cons.prems by (simp add: secondPass_def Let_def)
  have inv: "\<forall>c' \<in> set cs. (lower (name (h c')) = nq)
                = (c' \<in> set (exactMatches (secondPass lower h nq g c)))"
    using Cons.prems ex by simp
  have step: "startsWithMatches (secondPass lower h nq g c) =
                startsWithMatches g @ filter (\<lambda>c. tier lower h nq c = 2) [c]
            \<and> containsMatches (secondPass lower h nq g c) =
                containsMatches g @ filter (\<lambda>c. tier lower h nq c = 3) [c]
            \<and> otherMatches (secondPass lower h nq g c) =
                otherMatches g @ filter (\<lambda>c. tier lower h nq c = 4) [c]"
    using Cons.prems by (simp add: secondPass_def tier_def Let_def)
  show ?case
    using Cons.IH [OF inv] ex step by simp
qed

lemma tier_exact: "(tier lower h nq c = 1) = (lower (name (h c)) = nq)"
  by (simp add: tier_def Let_def)

lemma tier_exact_Suc: "(tier lower h nq c = Suc 0) = (lower (name (h c)) = nq)"
  by (simp add: tier_def Let_def)

lemma tier_contains:
  "(tier lower h nq c = 3) =
     (includes_str (lower (name (h c))) nq \<and> \<not> startsWith (lower (name (h c))) nq)"
  using startsWith_refl [of nq] by (auto simp: tier_def Let_def)

lemma tier_startsWith:
  "(tier lower h nq c = 2) =
     (startsWith (lower (name (h c))) nq \<and> lower (name (h c)) \<noteq> nq)"
  by (auto simp: tier_def Let_def)

lemma classify_groups:
  "exactMatches (classify lower h cs q) =
     filter (\<lambda>c. tier lower h (trim (lower q)) c = 1) cs"
  "startsWithMatches (classify lower h cs q) =
     filter (\<lambda>c. tier lower h (trim (lower q)) c = 2) cs"
  "containsMatches (classify lower h cs q) =
     filter (\<lambda>c. tier lower h (trim (lower q)) c = 3) cs"
  "otherMatches (classify lower h cs q) =
     filter (\<lambda>c. tier lower h (trim (lower q)) c = 4) cs"
proof -
  let ?nq = "trim (lower q)"
  let ?g1 = "foldl (firstPass lower h ?nq) emptyGroups cs"
  have g1: "exactMatches ?g1 = filter (\<lambda>c. lower (name (h c)) = ?nq) cs"
    "startsWithMatches ?g1 = []" "containsMatches ?g1 = []" "otherMatches ?g1 = []"
    using firstPass_foldl [of lower h ?nq emptyGroups cs] by (simp_all add: emptyGroups_def)
  have inv: "\<forall>c \<in> set cs. (lower (name (h c)) = ?nq) = (c \<in> set (exactMatches ?g1))"
    by (simp add: g1)
  have t1: "(\<lambda>c. lower (name (h c)) = ?nq) = (\<lambda>c. tier lower h ?nq c = 1)"
    by (auto simp: tier_def Let_def)
  show "exactMatches (classify lower h cs q) = filter (\<lambda>c. tier lower h ?nq c = 1) cs"
    "startsWithMatches (classify lower h cs q) = filter (\<lambda>c. tier lower h ?nq c = 2) cs"
    "containsMatches (classify lower h cs q) = filter (\<lambda>c. tier lower h ?nq c = 3) cs"
    "otherMatches (classify lower h cs q) = filter (\<lambda>c. tier lower h ?nq c = 4) cs"
    using secondPass_foldl [OF inv] g1 t1 by (simp_all add: classify_def Let_def)
qed

lemma prioritize_tiers:
  "prioritizeExactMatches lower h cs q =
     filter (\<lambda>c. tier lower h (trim (lower q)) c = 1) cs
     @ filter (\<lambda>c. tier lower h (trim (lower q)) c = 2) cs
     @ filter (\<lambda>c. tier lower h (trim (lower q)) c = 3) cs
     @ filter (\<lambda>c. tier lower h (trim (lower q)) c = 4) cs"
  by (simp add: prioritizeExactMatches_def Let_def classify_groups)

lemma tier_range:
  "tier lower h nq c = 1 \<or> tier lower h nq c = 2 \<or> tier lower h nq c = 3
   \<or> tier lower h nq c = 4"
  by (simp add: tier_def Let_def)

lemma mset_four_tiers:
  "mset (filter (\<lambda>c. tier lower h nq c = 1) cs) + mset (filter (\<lambda>c. tier lower h nq c = 2) cs)
   + mset (filter (\<lambda>c. tier lower h nq c = 3) cs)
   + mset (filter (\<lambda>c. tier lower h nq c = 4) cs)
   = mset cs"
proof (induction cs)
  case Nil
  show ?case by simp
next
  case (Cons c cs)
  then show ?case using tier_range [of lower h nq c] by auto
qed

lemma mset_prioritize: "mset (prioritizeExactMatches lower h cs q) = mset cs"
  using mset_four_tiers [of lower h "trim (lower q)" cs]
  by (simp add: prioritize_tiers add.assoc)

lemma sorted_tier_filter: "sorted (map t (filter (\<lambda>c. t c = (k::nat)) cs))"
  by (induction cs) auto

lemma sorted_prioritize:
  "sorted (map (tier lower h (trim (lower q))) (prioritizeExactMatches lower h cs q))"
  by (auto simp: prioritize_tiers sorted_append sorted_tier_filter)

text \<open>The example data evaluated.\<close>

lemma query_rtx: "trim (asciiLower (str ''RTX 4060'')) = str ''rtx 4060''"
  by (simp add: string_defs)

lemma tier_catalogue_0: "tier asciiLower catalogue (str ''rtx 4060'') 0 = 1"
  by (simp add: tier_def catalogue_def exampleComponent_def string_defs)

lemma tier_catalogue_1: "tier asciiLower catalogue (str ''rtx 4060'') (Suc 0) = 2"
  by (simp add: tier_def catalogue_def exampleComponent_def string_defs)

lemma tier_catalogue_2: "tier asciiLower catalogue (str ''rtx 4060'') 2 = 3"
  by (simp add: tier_def catalogue_def exampleComponent_def string_defs)

lemma tier_trio_0: "tier asciiLower trio (str ''rtx 4060'') 0 = 1"
  by (simp add: tier_def trio_def exampleComponent_def string_defs)

lemma tier_trio_1: "tier asciiLower trio (str ''rtx 4060'') (Suc 0) = 2"
  by (simp add: tier_def trio_def exampleComponent_def string_defs)

lemma tier_trio_2: "tier asciiLower trio (str ''rtx 4060'') 2 = 1"
  by (simp add: tier_def trio_def exampleComponent_def string_defs)


section \<open>Received components that all have a name\<close>

lemma forEachE_firstPassJson:
  "\<forall>c \<in> set cs. jsonName (j c) \<noteq> None \<Longrightarrow>
   forEachE (firstPassJson lower j nq) g cs
     = Inr (foldl (firstPass lower (typedStore j) nq) g cs)"
  by (induction cs arbitrary: g) (auto simp: firstPassJson_def)

lemma forEachE_secondPassJson:
  "\<forall>c \<in> set cs. jsonName (j c) \<noteq> None \<Longrightarrow>
   forEachE (secondPassJson lower j nq) g cs
     = Inr (foldl (secondPass lower (typedStore j) nq) g cs)"
proof (induction cs arbitrary: g)
  case Nil
  show ?case by simp
next
  case (Cons c cs)
  have "secondPassJson lower j nq g c = Inr (secondPass lower (typedStore j) nq g c)"
    using Cons.prems by (auto simp: secondPassJson_def secondPass_def)
  then show ?case
    using Cons by simp
qed

lemma forEachE_firstPassJson_raises:
  "\<exists>c \<in> set cs. jsonName (j c) = None \<Longrightarrow>
   forEachE (firstPassJson lower j nq) g cs = Inl TypeError"
proof (induction cs arbitrary: g)
  case Nil
  then show ?case by simp
next
  case (Cons c cs)
  show ?case
  proof (cases "jsonName (j c)")
    case None
    then show ?thesis by (simp add: firstPassJson_def)
  next
    case (Some n)
    then have "\<exists>c \<in> set cs. jsonName (j c) = None"
      using Cons.prems by auto
    then show ?thesis
      using Some Cons.IH by (simp add: firstPassJson_def)
  qed
qed

lemma prioritizeExactMatchesJson_named:
  "\<forall>c \<in> set cs. jsonName (j c) \<noteq> None \<Longrightarrow>
   prioritizeExactMatchesJson lower j cs q
     = Inr (prioritizeExactMatches lower (typedStore j) cs q)"
  by (simp add: prioritizeExactMatchesJson_def prioritizeExactMatches_def classify_def
      Let_def forEachE_firstPassJson forEachE_secondPassJson)

lemma testName_named:
  "jsonName (j c) \<noteq> None \<Longrightarrow>
   testName lower j P c = Inr (P (lower (name (typedStore j c))))"
  by (auto simp: testName_def typedStore_def asComponent_def)

lemma someE_total:
  "\<forall>x \<in> set xs. p x = Inr (P x) \<Longrightarrow> someE p xs = Inr (list_ex P xs)"
  by (induction xs) simp_all

lemma filterE_total:
  "\<forall>x \<in> set xs. p x = Inr (P x) \<Longrightarrow> filterE p xs = Inr (filter P xs)"
  by (induction xs) simp_all

lemma sectionE_total:
  assumes "\<forall>x \<in> set xs. p x = Inr (P x)"
  shows "sectionE p xs = Inr (filter P xs)"
proof (cases "list_ex P xs")
  case True
  then show ?thesis
    by (simp add: sectionE_def someE_total [OF assms] filterE_total [OF assms])
next
  case False
  then have "filter P xs = []"
    by (simp add: list_ex_iff filter_empty_conv)
  then show ?thesis
    using False by (simp add: sectionE_def someE_total [OF assms])
qed

lemma sectionE_named:
  "\<forall>c \<in> set cs. jsonName (j c) \<noteq> None \<Longrightarrow>
   sectionE (testName lower j P) cs
     = Inr (filter (\<lambda>c. P (lower (name (typedStore j c)))) cs)"
  by (rule sectionE_total) (simp add: testName_named)

lemma categorizeJson_named:
  "\<forall>c \<in> set cs. jsonName (j c) \<noteq> None \<Longrightarrow>
   categorizeJson lower j cs q = Inr (categorize lower (typedStore j) cs q)"
  by (simp add: categorizeJson_def categorize_def groupedSections_def sectionE_named)


section \<open>Properties of the ranking\<close>

text \<open>
  C2, conservation. For every list of components and every query, \<^verbatim>\<open>rank\<close> returns a list
  of the same length that is a permutation of its input: no component is dropped and none
  is duplicated.
\<close>

theorem rank_conservation:
  "length (rank lower h cs q) = length cs \<and> mset (rank lower h cs q) = mset cs"
proof -
  have m: "mset (rank lower h cs q) = mset cs"
    by (simp add: rank_def mset_prioritize)
  then have "length (rank lower h cs q) = length cs"
    by (rule mset_eq_length)
  with m show ?thesis by simp
qed

theorem rank_conservation_witness:
  "length (rank asciiLower catalogue [2, 1, 0] (str ''RTX 4060'')) = length [2, 1, 0::nat]
   \<and> mset (rank asciiLower catalogue [2, 1, 0] (str ''RTX 4060'')) = mset [2, 1, 0]"
  by (rule rank_conservation)

text \<open>
  C4, empty-query identity. When the query is empty or made of whitespace only, \<^verbatim>\<open>rank\<close>
  returns its input unchanged, the same components in the same order; so does
  \<^verbatim>\<open>applyFilters\<close> when no source and no availability is selected.
\<close>

theorem rank_blank_query_identity:
  assumes "\<forall>c \<in> set q. isWhiteSpace c"
  shows "rank lower h cs q = cs \<and> applyFilters lower h None None q cs = cs"
proof -
  have "trim q = []"
    using assms by (simp add: trim_Nil_iff)
  then show ?thesis
    by (simp add: rank_def applyFilters_def truthy_def)
qed

theorem rank_blank_query_identity_witness:
  "list_all isWhiteSpace (str ''  '')
   \<and> rank asciiLower catalogue [2, 0, 1] (str ''  '') = [2, 0, 1]
   \<and> applyFilters asciiLower catalogue None None (str ''  '') [2, 0, 1] = [2, 0, 1]"
  using rank_blank_query_identity [of "str ''  ''" asciiLower catalogue "[2, 0, 1]"]
  by (simp add: str_def isWhiteSpace_def)

text \<open>
  C10, idempotence. For every list and every query, prioritizing an already prioritized
  list changes nothing.
\<close>

theorem prioritizeExactMatches_idempotent:
  "prioritizeExactMatches lower h (prioritizeExactMatches lower h cs q) q
     = prioritizeExactMatches lower h cs q"
proof -
  let ?t = "tier lower h (trim (lower q))"
  have disjoint: "\<And>i j. i \<noteq> j \<Longrightarrow> filter (\<lambda>c. ?t c = i) (filter (\<lambda>c. ?t c = j) cs) = []"
    by (simp add: filter_empty_conv)
  show ?thesis
    unfolding prioritize_tiers [of lower h "prioritizeExactMatches lower h cs q" q]
    unfolding prioritize_tiers [of lower h cs q]
    by (simp add: disjoint)
qed

theorem prioritizeExactMatches_idempotent_witness:
  "prioritizeExactMatches asciiLower catalogue
     (prioritizeExactMatches asciiLower catalogue [2, 1, 0] (str ''RTX 4060''))
     (str ''RTX 4060'')
   = prioritizeExactMatches asciiLower catalogue [2, 1, 0] (str ''RTX 4060'')"
  by (rule prioritizeExactMatches_idempotent)

text \<open>
  C3, tier ordering, as claimed: the output of \<^verbatim>\<open>rank\<close> is the concatenation of the four
  tiers of the specification, whose tier 1 holds one exact match for each source, each
  tier in input order. This fails: in \<open>trio\<close> the components 0 and 2 are exact matches of
  one source and the name of component 1 starts with the query; the specification gives
  0 (tier 1), then 1 and 2 (tier 2, in input order), and the code returns 0, 2, 1.
\<close>

theorem tier_concatenation_counterexample:
  "truthy (trim (str ''RTX 4060''))
   \<and> spec_rank asciiLower trio [0, 1, 2] (str ''RTX 4060'') = [0, 1, 2]
   \<and> rank asciiLower trio [0, 1, 2] (str ''RTX 4060'') = [0, 2, 1]"
proof -
  have q: "truthy (trim (str ''RTX 4060''))"
    by (simp add: string_defs)
  have s: "spec_rank asciiLower trio [0, 1, 2] (str ''RTX 4060'') = [0, 1, 2]"
    by (simp add: spec_rank_def spec_normalize_def trio_def exampleComponent_def string_defs)
  have r: "rank asciiLower trio [0, 1, 2] (str ''RTX 4060'') = [0, 2, 1]"
    using q by (simp add: rank_def prioritize_tiers query_rtx tier_trio_0 tier_trio_1
        tier_trio_2)
  show ?thesis
    using q s r by simp
qed

text \<open>
  C3 as amended: for every list and every query that is not empty after trimming, the
  output of \<^verbatim>\<open>rank\<close> is the components of tier 1, then those of tier 2 (starts with),
  tier 3 (contains) and tier 4 (other), each tier in the order of the input, where tier 1
  holds every component whose lower-cased name equals the normalized query, with no cap
  per source, and the names are lower-cased and not trimmed. The output is therefore
  sorted by tier, and every component whose lower-cased name equals the normalized query
  stands before every component whose name only contains it.
\<close>

theorem rank_tier_order:
  assumes "truthy (trim q)"
  shows "rank lower h cs q =
           filter (\<lambda>c. tier lower h (trim (lower q)) c = 1) cs
           @ filter (\<lambda>c. tier lower h (trim (lower q)) c = 2) cs
           @ filter (\<lambda>c. tier lower h (trim (lower q)) c = 3) cs
           @ filter (\<lambda>c. tier lower h (trim (lower q)) c = 4) cs
     \<and> sorted (map (tier lower h (trim (lower q))) (rank lower h cs q))
     \<and> (\<forall>i j. i < length (rank lower h cs q) \<and> j < length (rank lower h cs q)
            \<and> lower (name (h (rank lower h cs q ! i))) = trim (lower q)
            \<and> includes_str (lower (name (h (rank lower h cs q ! j)))) (trim (lower q))
            \<and> \<not> startsWith (lower (name (h (rank lower h cs q ! j)))) (trim (lower q))
          \<longrightarrow> i < j)"
proof -
  let ?nq = "trim (lower q)"
  let ?t = "tier lower h ?nq"
  let ?out = "rank lower h cs q"
  have out: "?out = prioritizeExactMatches lower h cs q"
    using assms by (simp add: rank_def)
  have tiers: "?out = filter (\<lambda>c. ?t c = 1) cs @ filter (\<lambda>c. ?t c = 2) cs
                 @ filter (\<lambda>c. ?t c = 3) cs @ filter (\<lambda>c. ?t c = 4) cs"
    unfolding out by (rule prioritize_tiers)
  have srt: "sorted (map ?t ?out)"
    unfolding out by (rule sorted_prioritize)
  have prec: "i < j"
    if i: "i < length ?out" and j: "j < length ?out"
      and ex: "lower (name (h (?out ! i))) = ?nq"
      and inc: "includes_str (lower (name (h (?out ! j)))) ?nq"
      and nst: "\<not> startsWith (lower (name (h (?out ! j)))) ?nq" for i j
  proof (rule ccontr)
    assume "\<not> i < j"
    then have "j \<le> i" by simp
    then have "map ?t ?out ! j \<le> map ?t ?out ! i"
      using srt i by (simp only: sorted_iff_nth_mono length_map)
    then have "?t (?out ! j) \<le> ?t (?out ! i)"
      using i j by simp
    moreover have "?t (?out ! i) = 1"
      using ex tier_exact [of lower h ?nq] by blast
    moreover have "?t (?out ! j) = 3"
      using inc nst tier_contains [of lower h ?nq] by blast
    ultimately show False by simp
  qed
  have all: "\<forall>i j. i < length ?out \<and> j < length ?out
            \<and> lower (name (h (?out ! i))) = ?nq
            \<and> includes_str (lower (name (h (?out ! j)))) ?nq
            \<and> \<not> startsWith (lower (name (h (?out ! j)))) ?nq
          \<longrightarrow> i < j"
    using prec by blast
  show ?thesis
    by (rule conjI, rule tiers, rule conjI, rule srt, rule all)
qed

theorem rank_tier_order_witness:
  "truthy (trim (str ''RTX 4060''))
   \<and> rank asciiLower catalogue [0, 1, 2] (str ''RTX 4060'') = [0, 1, 2]
   \<and> rank asciiLower catalogue [2, 1, 0] (str ''RTX 4060'') = [0, 1, 2]"
proof -
  have q: "truthy (trim (str ''RTX 4060''))"
    by (simp add: string_defs)
  show ?thesis
    using q rank_tier_order [OF q, of asciiLower catalogue "[0, 1, 2]", THEN conjunct1]
      rank_tier_order [OF q, of asciiLower catalogue "[2, 1, 0]", THEN conjunct1]
    by (simp add: query_rtx tier_catalogue_0 tier_catalogue_1 tier_catalogue_2)
qed

text \<open>
  C1, per-source cap, as claimed: of two components with the same source whose normalized
  names equal the normalized query, the second is not placed in the exact tier. This fails:
  both objects of \<open>twins\<close> are placed in the exact tier and none in the starts-with tier.
\<close>

theorem per_source_cap_counterexample:
  "spec_normalize asciiLower (name (twins 0)) = spec_normalize asciiLower (str ''RTX 4060'')
   \<and> spec_normalize asciiLower (name (twins 1)) = spec_normalize asciiLower (str ''RTX 4060'')
   \<and> source (twins 0) = source (twins 1)
   \<and> truthy (trim (str ''RTX 4060''))
   \<and> exactMatches (classify asciiLower twins [0, 1] (str ''RTX 4060'')) = [0, 1]
   \<and> startsWithMatches (classify asciiLower twins [0, 1] (str ''RTX 4060'')) = []"
  by (simp add: spec_normalize_def string_defs ranking_defs twins_def)

text \<open>
  C1 as amended: the exact tier has no cap per source. For every list and every query it
  holds every component whose lower-cased name equals the normalized query, in the order
  of the input; two such components with the same source are both in the exact tier, and
  the second is in none of the tiers 2 to 4.
\<close>

theorem exact_tier_every_source:
  "exactMatches (classify lower h cs q) =
     filter (\<lambda>c. lower (name (h c)) = trim (lower q)) cs
   \<and> (i < j \<and> j < length cs
        \<and> lower (name (h (cs ! i))) = trim (lower q)
        \<and> lower (name (h (cs ! j))) = trim (lower q)
        \<and> source (h (cs ! i)) = source (h (cs ! j))
      \<longrightarrow> cs ! i \<in> set (exactMatches (classify lower h cs q))
        \<and> cs ! j \<in> set (exactMatches (classify lower h cs q))
        \<and> cs ! j \<notin> set (startsWithMatches (classify lower h cs q))
        \<and> cs ! j \<notin> set (containsMatches (classify lower h cs q))
        \<and> cs ! j \<notin> set (otherMatches (classify lower h cs q)))"
proof -
  let ?nq = "trim (lower q)"
  let ?g = "classify lower h cs q"
  have ex: "exactMatches ?g = filter (\<lambda>c. lower (name (h c)) = ?nq) cs"
    by (simp add: classify_groups tier_exact_Suc)
  have both: "cs ! i \<in> set (exactMatches ?g) \<and> cs ! j \<in> set (exactMatches ?g)
      \<and> cs ! j \<notin> set (startsWithMatches ?g) \<and> cs ! j \<notin> set (containsMatches ?g)
      \<and> cs ! j \<notin> set (otherMatches ?g)"
    if lt: "i < j" "j < length cs"
      and ni: "lower (name (h (cs ! i))) = ?nq"
      and nj: "lower (name (h (cs ! j))) = ?nq"
  proof -
    have i: "cs ! i \<in> set cs" and j: "cs ! j \<in> set cs"
      using lt by simp_all
    have tj: "tier lower h ?nq (cs ! j) = 1"
      using nj tier_exact [of lower h ?nq] by blast
    have "cs ! i \<in> set (exactMatches ?g)" "cs ! j \<in> set (exactMatches ?g)"
      using i j ni nj by (simp_all add: ex)
    moreover have "cs ! j \<notin> set (startsWithMatches ?g)"
      "cs ! j \<notin> set (containsMatches ?g)" "cs ! j \<notin> set (otherMatches ?g)"
      using tj by (simp_all add: classify_groups)
    ultimately show ?thesis by blast
  qed
  show ?thesis
    using ex both by blast
qed

theorem exact_tier_every_source_witness:
  "(0::nat) < 1 \<and> 1 < length [0, 1::nat]
   \<and> asciiLower (name (twins ([0, 1] ! 0))) = trim (asciiLower (str ''RTX 4060''))
   \<and> asciiLower (name (twins ([0, 1] ! 1))) = trim (asciiLower (str ''RTX 4060''))
   \<and> source (twins ([0, 1] ! 0)) = source (twins ([0, 1] ! 1))
   \<and> exactMatches (classify asciiLower twins [0, 1] (str ''RTX 4060'')) = [0, 1]
   \<and> [0, 1] ! 1 \<in> set (exactMatches (classify asciiLower twins [0, 1] (str ''RTX 4060'')))"
proof -
  have n: "asciiLower (name (twins c)) = trim (asciiLower (str ''RTX 4060''))" for c
    by (simp add: string_defs twins_def exampleComponent_def)
  have s: "source (twins ([0, 1] ! 0)) = source (twins ([0, 1] ! 1))"
    by (simp add: twins_def)
  show ?thesis
    using n s
      exact_tier_every_source [of asciiLower twins "[0, 1]" "str ''RTX 4060''" 0 1]
    by simp
qed





section \<open>Properties of the grouped display\<close>

text \<open>
  C6, categorize, as claimed: the exact section holds every component whose normalized
  (trimmed and lower-cased) name equals the normalized query. This fails: the name of
  \<open>padded\<close> has a leading space, its normalized form is that of the query, and the
  component is shown in the other section, not in the exact one.
\<close>

theorem categorize_normalization_counterexample:
  "spec_normalize asciiLower (name (padded 0)) = spec_normalize asciiLower (str ''RTX 4060'')
   \<and> truthy (str ''RTX 4060'')
   \<and> categorize asciiLower padded [0] (str ''RTX 4060'')
       = Some \<lparr>exactSection = [], similarSection = [], otherSection = [0]\<rparr>"
  by (simp add: spec_normalize_def string_defs categorize_def groupedSections_def padded_def
      exampleComponent_def)

text \<open>
  C6 as amended: the names are lower-cased and not trimmed. For every list and every
  non-empty query whose lower-cased form has no leading or trailing whitespace, so that it
  is the normalized query, the exact section holds every component whose lower-cased name
  equals the normalized query, whatever its source, so two exact matches of one source are
  both in it; the similar section holds the components whose lower-cased name starts with
  the normalized query and differs from it; the other section holds the remaining ones,
  which neither equal nor start with it. The exact and similar sections are the first two
  tiers of \<^verbatim>\<open>prioritizeExactMatches\<close>. Queries with surrounding whitespace are left out
  of the statement.
\<close>

theorem categorize_sections:
  assumes "truthy q" and "trim (lower q) = lower q"
  shows "categorize lower h cs q =
           Some \<lparr>exactSection = filter (\<lambda>c. lower (name (h c)) = trim (lower q)) cs,
                 similarSection =
                   filter (\<lambda>c. startsWith (lower (name (h c))) (trim (lower q))
                               \<and> lower (name (h c)) \<noteq> trim (lower q)) cs,
                 otherSection =
                   filter (\<lambda>c. \<not> startsWith (lower (name (h c))) (trim (lower q))
                               \<and> lower (name (h c)) \<noteq> trim (lower q)) cs\<rparr>
     \<and> filter (\<lambda>c. lower (name (h c)) = trim (lower q)) cs
         = exactMatches (classify lower h cs q)
     \<and> filter (\<lambda>c. startsWith (lower (name (h c))) (trim (lower q))
                   \<and> lower (name (h c)) \<noteq> trim (lower q)) cs
         = startsWithMatches (classify lower h cs q)"
  using assms
  by (simp add: categorize_def groupedSections_def classify_groups tier_exact_Suc
      tier_startsWith)

theorem categorize_sections_witness:
  "truthy (str ''RTX 4060'')
   \<and> trim (asciiLower (str ''RTX 4060'')) = asciiLower (str ''RTX 4060'')
   \<and> categorize asciiLower twins [0, 1] (str ''RTX 4060'')
       = Some \<lparr>exactSection = [0, 1], similarSection = [], otherSection = []\<rparr>"
proof -
  have t: "truthy (str ''RTX 4060'')"
    by (simp add: string_defs)
  have q: "trim (asciiLower (str ''RTX 4060'')) = asciiLower (str ''RTX 4060'')"
    by (simp add: string_defs)
  have n: "asciiLower (name (twins c)) = asciiLower (str ''RTX 4060'')" for c
    by (simp add: string_defs twins_def exampleComponent_def)
  show ?thesis
    using t q
      categorize_sections [of "str ''RTX 4060''" asciiLower twins "[0, 1]", THEN conjunct1]
    by (simp add: n startsWith_refl)
qed


section \<open>Properties of the received components\<close>

text \<open>
  C7, totality, as claimed: for every input \<^verbatim>\<open>rank\<close> and \<^verbatim>\<open>categorize\<close> return a result
  and never raise an error. This fails on a received component without a name, which the
  specification counts among the inputs: both raise a TypeError.
\<close>

theorem missing_name_counterexample:
  "jsonName (nameless 0) = None
   \<and> truthy (trim (str ''RTX 4060''))
   \<and> rankJson asciiLower nameless [0] (str ''RTX 4060'') = Inl TypeError
   \<and> categorizeJson asciiLower nameless [0] (str ''RTX 4060'') = Inl TypeError"
  by (simp add: nameless_def rankJson_def prioritizeExactMatchesJson_def firstPassJson_def
      categorizeJson_def sectionE_def testName_def string_defs)

text \<open>
  C7 as amended: for every list of received components that all have a name, the empty
  name included and whatever their sources are, and for every query, \<^verbatim>\<open>rank\<close> and
  \<^verbatim>\<open>categorize\<close> return a result and raise no error: the result of the functions on
  components of \<^verbatim>\<open>interface Component\<close>. For the empty list \<^verbatim>\<open>rank\<close> returns the empty
  list for every query, and \<^verbatim>\<open>categorize\<close> returns three empty sections for every
  non-empty query and no section for the empty query. When the query is not empty after
  trimming and a component of the list has no name, \<^verbatim>\<open>rank\<close> raises a TypeError.
\<close>

theorem ranker_returns_when_named:
  "((\<forall>c \<in> set cs. jsonName (j c) \<noteq> None) \<longrightarrow>
       rankJson lower j cs q = Inr (rank lower (typedStore j) cs q)
     \<and> categorizeJson lower j cs q = Inr (categorize lower (typedStore j) cs q))
   \<and> rankJson lower j [] q = Inr []
   \<and> categorizeJson lower j [] q =
       Inr (if truthy q
            then Some \<lparr>exactSection = [], similarSection = [], otherSection = []\<rparr>
            else None)
   \<and> (truthy (trim q) \<and> (\<exists>c \<in> set cs. jsonName (j c) = None)
        \<longrightarrow> rankJson lower j cs q = Inl TypeError)"
proof -
  have named: "rankJson lower j cs q = Inr (rank lower (typedStore j) cs q)
      \<and> categorizeJson lower j cs q = Inr (categorize lower (typedStore j) cs q)"
    if "\<forall>c \<in> set cs. jsonName (j c) \<noteq> None"
    using that
    by (simp add: rankJson_def rank_def prioritizeExactMatchesJson_named categorizeJson_named)
  have empty: "rankJson lower j [] q = Inr []"
    by (simp add: rankJson_def prioritizeExactMatchesJson_def emptyGroups_def)
  have sections: "categorizeJson lower j [] q =
       Inr (if truthy q
            then Some \<lparr>exactSection = [], similarSection = [], otherSection = []\<rparr>
            else None)"
    by (simp add: categorizeJson_def sectionE_def)
  have raises: "rankJson lower j cs q = Inl TypeError"
    if "truthy (trim q)" and "\<exists>c \<in> set cs. jsonName (j c) = None"
    using that
    by (simp add: rankJson_def prioritizeExactMatchesJson_def forEachE_firstPassJson_raises)
  show ?thesis
    using named empty sections raises by blast
qed

theorem ranker_returns_when_named_witness:
  "list_all (\<lambda>c. jsonName (blank c) \<noteq> None) [0, 1]
   \<and> rankJson asciiLower blank [0, 1] [] = Inr [0, 1]
   \<and> rankJson asciiLower blank [0, 1] (str ''rtx'') = Inr [0, 1]
   \<and> categorizeJson asciiLower blank [0, 1] (str ''rtx'')
       = Inr (Some \<lparr>exactSection = [], similarSection = [], otherSection = [0, 1]\<rparr>)
   \<and> categorizeJson asciiLower blank [0, 1] [] = Inr None"
proof -
  have n: "\<forall>c \<in> set [0, 1]. jsonName (blank c) \<noteq> None"
    by (simp add: blank_def)
  have t: "tier asciiLower (typedStore blank) (trim (asciiLower (str ''rtx''))) c = 4" for c
    by (simp add: tier_def typedStore_def asComponent_def blank_def string_defs)
  have tq: "truthy (trim (str ''rtx''))"
    by (simp add: string_defs)
  have e: "name (typedStore blank c) = []" for c
    by (simp add: typedStore_def asComponent_def blank_def)
  have a: "rankJson asciiLower blank [0, 1] [] = Inr [0, 1]"
    using ranker_returns_when_named [of "[0, 1]" blank asciiLower "[]", THEN conjunct1,
        THEN mp, OF n, THEN conjunct1]
    by (simp add: rank_def string_defs)
  have b: "rankJson asciiLower blank [0, 1] (str ''rtx'') = Inr [0, 1]"
    using ranker_returns_when_named [of "[0, 1]" blank asciiLower "str ''rtx''",
        THEN conjunct1, THEN mp, OF n, THEN conjunct1]
    by (simp add: rank_def prioritize_tiers t tq)
  have c: "categorizeJson asciiLower blank [0, 1] (str ''rtx'')
       = Inr (Some \<lparr>exactSection = [], similarSection = [], otherSection = [0, 1]\<rparr>)"
    using ranker_returns_when_named [of "[0, 1]" blank asciiLower "str ''rtx''",
        THEN conjunct1, THEN mp, OF n, THEN conjunct2]
    by (simp add: categorize_def groupedSections_def e string_defs)
  have d: "categorizeJson asciiLower blank [0, 1] [] = Inr None"
    using ranker_returns_when_named [of "[0, 1]" blank asciiLower "[]", THEN conjunct1,
        THEN mp, OF n, THEN conjunct2]
    by (simp add: categorize_def truthy_def)
  show ?thesis
    using n a b c d by simp
qed


section \<open>Properties of the price display\<close>

lemma renderPrice_cases:
  "renderPrice p =
     (let segs = filter (\<lambda>s. trim s \<noteq> []) (split_str p taka) in
      if 2 \<le> count_list p taka \<and> 2 \<le> length segs
      then DualPrice (taka # trim (segs ! 0)) (taka # trim (segs ! 1))
      else RegularPrice p)"
proof (cases "2 \<le> count_list p taka")
  case True
  then have "taka \<in> set p"
    using count_list_pos [of p taka] by simp
  with True show ?thesis
    by (simp add: renderPrice_def Let_def length_split_str includes_str_unit truthy_def)
next
  case False
  then show ?thesis
    by (simp add: renderPrice_def Let_def length_split_str)
qed

text \<open>
  C8, price strings, as claimed: the two-price display is chosen exactly when the marker
  occurs more than twice. This fails in both directions: the string of the source's own
  comment has two markers and is shown as two prices, and a string of three markers alone
  is shown as it is.
\<close>

theorem renderPrice_marker_count_counterexample:
  "count_list twoPrices taka = 2
   \<and> renderPrice twoPrices = DualPrice (taka # str ''12,500'') (taka # str ''13,000'')
   \<and> count_list [taka, taka, taka] taka = 3
   \<and> renderPrice [taka, taka, taka] = RegularPrice [taka, taka, taka]"
  by (simp add: renderPrice_def split_str_def twoPrices_def taka_def string_defs)

text \<open>
  C8 as amended: splitting yields one segment more than there are markers, and the
  two-price display is chosen exactly when the marker occurs at least twice and at least
  two segments are not blank (not empty after trimming). It then shows the marker followed
  by the trimmed first such segment as the current price, and the marker followed by the
  trimmed second one as the original price. In every other case, and so whenever the
  marker occurs at most once, the string is shown as it is.
\<close>

theorem renderPrice_dual_path:
  "renderPrice p =
     (let segs = filter (\<lambda>s. trim s \<noteq> []) (split_str p taka) in
      if 2 \<le> count_list p taka \<and> 2 \<le> length segs
      then DualPrice (taka # trim (segs ! 0)) (taka # trim (segs ! 1))
      else RegularPrice p)
   \<and> (count_list p taka \<le> 1 \<longrightarrow> renderPrice p = RegularPrice p)
   \<and> length (split_str p taka) = count_list p taka + 1"
  by (simp add: renderPrice_cases [of p] Let_def length_split_str)

theorem renderPrice_dual_path_witness:
  "renderPrice twoPrices = DualPrice (taka # str ''12,500'') (taka # str ''13,000'')
   \<and> count_list (taka # str '' 500'') taka \<le> 1
   \<and> renderPrice (taka # str '' 500'') = RegularPrice (taka # str '' 500'')"
proof -
  have c: "count_list (taka # str '' 500'') taka \<le> 1"
    by (simp add: taka_def str_def)
  have s: "filter (\<lambda>s. trim s \<noteq> []) (split_str twoPrices taka) = [str '' 12,500 '', str '' 13,000'']"
    by (simp add: split_str_def twoPrices_def taka_def string_defs)
  have n: "count_list twoPrices taka = 2"
    by (simp add: twoPrices_def taka_def str_def)
  have t: "trim (str '' 12,500 '') = str ''12,500''" "trim (str '' 13,000'') = str ''13,000''"
    by (simp_all add: string_defs)
  show ?thesis
    using c renderPrice_dual_path [of twoPrices, THEN conjunct1]
      renderPrice_dual_path [of "taka # str '' 500''", THEN conjunct2, THEN conjunct1]
    by (simp add: s n t)
qed


section \<open>Properties of the compare list\<close>

lemma compareList_some:
  "list_ex (\<lambda>item. name item = name p \<and> source item = source p) compareList
     = (compareKey p \<in> set (map compareKey compareList))"
  by (induction compareList) (auto simp: compareKey_def)

text \<open>
  C9, compare list. When the entries of the compare list have pairwise distinct keys
  (name, source), so have the entries after \<^verbatim>\<open>addToCompare\<close>; adding a product whose key
  is in the list leaves the list unchanged, and adding a product with a new key appends
  it at the end.
\<close>

theorem addToCompare_set_invariant:
  "(distinct (map compareKey compareList)
      \<longrightarrow> distinct (map compareKey (addToCompare compareList product)))
   \<and> (compareKey product \<in> set (map compareKey compareList)
      \<longrightarrow> addToCompare compareList product = compareList)
   \<and> (compareKey product \<notin> set (map compareKey compareList)
      \<longrightarrow> addToCompare compareList product = compareList @ [product])"
  unfolding addToCompare_def compareList_some by simp

theorem addToCompare_set_invariant_witness:
  "distinct (map compareKey [exampleProduct ''RTX 4060'' ''Startech''])
   \<and> compareKey (exampleProduct ''RTX 4060'' ''Startech'')
       \<in> set (map compareKey [exampleProduct ''RTX 4060'' ''Startech''])
   \<and> addToCompare [exampleProduct ''RTX 4060'' ''Startech''] (exampleProduct ''RTX 4060'' ''Startech'')
       = [exampleProduct ''RTX 4060'' ''Startech'']
   \<and> compareKey (exampleProduct ''RTX 4060'' ''Techland'')
       \<notin> set (map compareKey [exampleProduct ''RTX 4060'' ''Startech''])
   \<and> addToCompare [exampleProduct ''RTX 4060'' ''Startech''] (exampleProduct ''RTX 4060'' ''Techland'')
       = [exampleProduct ''RTX 4060'' ''Startech'', exampleProduct ''RTX 4060'' ''Techland'']
   \<and> distinct (map compareKey
        (addToCompare [exampleProduct ''RTX 4060'' ''Startech''] (exampleProduct ''RTX 4060'' ''Techland'')))"
proof -
  have k: "compareKey (exampleProduct ''RTX 4060'' ''Techland'')
       \<notin> set (map compareKey [exampleProduct ''RTX 4060'' ''Startech''])"
    by (simp add: compareKey_def exampleProduct_def str_def)
  show ?thesis
    using k addToCompare_set_invariant [of "[exampleProduct ''RTX 4060'' ''Startech'']"
        "exampleProduct ''RTX 4060'' ''Startech''"]
      addToCompare_set_invariant [of "[exampleProduct ''RTX 4060'' ''Startech'']"
        "exampleProduct ''RTX 4060'' ''Techland''"]
    by simp
qed

end
